theory Spec2Isabelle
  imports Complex_Main
begin

section \<open>The platformer's simulation step (main.js)\<close>

text \<open>
  The game keeps its state in a handful of variables of one closure: the \<open>keys\<close> table,
  the \<open>player\<close> object, the arrays \<open>platforms\<close> and \<open>coins\<close>, and the two variables
  \<open>score\<close> and \<open>win\<close>. The embedding passes that state explicitly. JavaScript numbers
  are modelled as \<open>real\<close>: every constant of the program (0.5, 0.8, 0.05 and the integer
  coordinates) is a real numeral and \<open>+\<close>, \<open>*\<close>, \<open><\<close> are the exact operations, so rounding
  of IEEE doubles is not part of the model. The canvas comes from the page and not from
  main.js; its height is the parameter \<open>H\<close> of every function that reads \<open>canvas.height\<close>.
\<close>

subsection \<open>World configuration and input state\<close>

text \<open>\<open>const world = { width: 3000, height: canvas.height, gravity: 0.5 }\<close>\<close>

definition world_width :: real where
  "world_width = 3000"

definition world_gravity :: real where
  "world_gravity = 1 / 2"

text \<open>
  \<open>keys\<close> is an object indexed by \<open>event.code\<close>; a code that was never pressed is absent
  (\<open>undefined\<close>, which is falsy), keydown stores \<open>true\<close> and keyup stores \<open>false\<close>.
\<close>

type_synonym keys = "string \<rightharpoonup> bool"

definition held :: "keys \<Rightarrow> string \<Rightarrow> bool" where
  "held ks c = (ks c = Some True)"

definition keydown :: "keys \<Rightarrow> string \<Rightarrow> keys" where
  "keydown ks c = ks(c \<mapsto> True)"

definition keyup :: "keys \<Rightarrow> string \<Rightarrow> keys" where
  "keyup ks c = ks(c \<mapsto> False)"

subsection \<open>Entities\<close>

record platform =
  plat_x :: real
  plat_y :: real
  plat_w :: real
  plat_h :: real

record coin =
  coin_x :: real
  coin_y :: real
  coin_r :: real

record player =
  pw :: real
  ph :: real
  px :: real
  py :: real
  vx :: real
  vy :: real
  speed :: real
  jumpStrength :: real
  onGround :: bool

text \<open>The constructor of \<open>Player\<close>.\<close>

definition newPlayer :: player where
  "newPlayer = \<lparr> pw = 40, ph = 60, px = 50, py = 0, vx = 0, vy = 0,
                 speed = 4, jumpStrength = 12, onGround = False \<rparr>"

text \<open>The constructor of \<open>Coin\<close>, whose radius defaults to 10.\<close>

definition Coin :: "real \<Rightarrow> real \<Rightarrow> coin" where
  "Coin cx cy = \<lparr> coin_x = cx, coin_y = cy, coin_r = 10 \<rparr>"

definition Platform :: "real \<Rightarrow> real \<Rightarrow> real \<Rightarrow> real \<Rightarrow> platform" where
  "Platform a b c d = \<lparr> plat_x = a, plat_y = b, plat_w = c, plat_h = d \<rparr>"

subsection \<open>Player.update, statement by statement\<close>

definition left_held :: "keys \<Rightarrow> bool" where
  "left_held ks = (held ks ''ArrowLeft'' \<or> held ks ''KeyA'')"

definition right_held :: "keys \<Rightarrow> bool" where
  "right_held ks = (held ks ''ArrowRight'' \<or> held ks ''KeyD'')"

definition jump_held :: "keys \<Rightarrow> bool" where
  "jump_held ks = (held ks ''ArrowUp'' \<or> held ks ''KeyW'' \<or> held ks ''Space'')"

text \<open>
  Lines 152--165. The pair carries the local variable \<open>moving\<close> beside the player; the
  two \<open>if\<close>s run one after the other, the friction branch last.
\<close>

definition friction :: "real \<Rightarrow> real" where
  "friction v = (let v' = v * (8 / 10) in if \<bar>v'\<bar> < 5 / 100 then 0 else v')"

definition horizontal :: "keys \<Rightarrow> player \<Rightarrow> player" where
  "horizontal ks p =
     (let (p1, moving1) = (if left_held ks then (p\<lparr>vx := - speed p\<rparr>, True) else (p, False));
          (p2, moving2) = (if right_held ks then (p1\<lparr>vx := speed p1\<rparr>, True) else (p1, moving1))
      in if moving2 then p2 else p2\<lparr>vx := friction (vx p2)\<rparr>)"

text \<open>Line 167: \<open>this.x += this.vx\<close>.\<close>

definition move_x :: "player \<Rightarrow> player" where
  "move_x p = p\<lparr>px := px p + vx p\<rparr>"

text \<open>Lines 170--176: the world's left and right edges.\<close>

definition clamp_x :: "player \<Rightarrow> player" where
  "clamp_x p =
     (if px p < 0 then p\<lparr>px := 0, vx := 0\<rparr>
      else if px p + pw p > world_width then p\<lparr>px := world_width - pw p, vx := 0\<rparr>
      else p)"

text \<open>Lines 179--182.\<close>

definition jump :: "keys \<Rightarrow> player \<Rightarrow> player" where
  "jump ks p =
     (if jump_held ks \<and> onGround p then p\<lparr>vy := - jumpStrength p, onGround := False\<rparr>
      else p)"

text \<open>Lines 185--186: \<open>this.vy += world.gravity; this.y += this.vy\<close>.\<close>

definition gravity :: "player \<Rightarrow> player" where
  "gravity p = (let p1 = p\<lparr>vy := vy p + world_gravity\<rparr> in p1\<lparr>py := py p1 + vy p1\<rparr>)"

text \<open>Lines 210--216.\<close>

definition respawn :: "player \<Rightarrow> player" where
  "respawn p = p\<lparr>px := 50, py := 0, vx := 0, vy := 0\<rparr>"

text \<open>Lines 189--191.\<close>

definition fall_check :: "real \<Rightarrow> player \<Rightarrow> player" where
  "fall_check H p = (if py p > H + 200 then respawn p else p)"

text \<open>Lines 197--203: the condition of the \<open>if\<close> in the loop over the platforms.\<close>

definition hits :: "player \<Rightarrow> platform \<Rightarrow> bool" where
  "hits p plat =
     (vy p \<ge> 0 \<and>
      px p + pw p > plat_x plat \<and>
      px p < plat_x plat + plat_w plat \<and>
      py p + ph p \<le> plat_y plat + 5 \<and>
      py p + ph p + vy p \<ge> plat_y plat)"

text \<open>Lines 197--207: the body of the loop, for one platform.\<close>

definition collide :: "player \<Rightarrow> platform \<Rightarrow> player" where
  "collide p plat =
     (if hits p plat then p\<lparr>py := plat_y plat - ph p, vy := 0, onGround := True\<rparr> else p)"

text \<open>
  Everything of \<open>update\<close> before the loop (lines 152--194), ending with
  \<open>this.onGround = false\<close>.
\<close>

definition before_collision :: "keys \<Rightarrow> real \<Rightarrow> player \<Rightarrow> player" where
  "before_collision ks H p =
     (fall_check H (gravity (jump ks (clamp_x (move_x (horizontal ks p))))))\<lparr>onGround := False\<rparr>"

text \<open>\<open>Player.update\<close>: the statements above, then \<open>for (const plat of platforms)\<close>.\<close>

definition update :: "keys \<Rightarrow> real \<Rightarrow> platform list \<Rightarrow> player \<Rightarrow> player" where
  "update ks H plats p = foldl collide (before_collision ks H p) plats"

text \<open>
  The condition of line 189, \<open>this.y > canvas.height + 200\<close>, written over the player
  at the start of the frame: by then \<open>y\<close> has moved by the frame's \<open>vy\<close>, which is the
  jump's or the old one, plus gravity (lemma \<open>falls_out_iff\<close>).
\<close>

definition falls_out :: "keys \<Rightarrow> real \<Rightarrow> player \<Rightarrow> bool" where
  "falls_out ks H p = (py p + (vy (jump ks p) + world_gravity) > H + 200)"

subsection \<open>The level, the game state and updateGame\<close>

record game =
  player :: player
  platforms :: "platform list"
  coins :: "coin list"
  score :: int
  win :: bool

text \<open>\<open>createLevel\<close> pushes nine platforms (the ground first) and eight coins.\<close>

definition level_platforms :: "real \<Rightarrow> platform list" where
  "level_platforms H =
     [Platform 0 (H - 50) world_width 50,
      Platform 250 (H - 120) 120 20,
      Platform 500 (H - 200) 120 20,
      Platform 800 (H - 150) 120 20,
      Platform 1100 (H - 250) 150 20,
      Platform 1500 (H - 180) 160 20,
      Platform 1850 (H - 100) 100 20,
      Platform 2100 (H - 220) 180 20,
      Platform 2500 (H - 160) 120 20]"

definition level_coins :: "real \<Rightarrow> coin list" where
  "level_coins H =
     [Coin 300 (H - 160),
      Coin 530 (H - 240),
      Coin 840 (H - 200),
      Coin 1150 (H - 300),
      Coin 1520 (H - 230),
      Coin 1870 (H - 140),
      Coin 2130 (H - 260),
      Coin 2530 (H - 200)]"

text \<open>The state when the first frame is requested.\<close>

definition initial :: "real \<Rightarrow> game" where
  "initial H = \<lparr> player = newPlayer, platforms = level_platforms H,
                 coins = level_coins H, score = 0, win = False \<rparr>"

text \<open>Lines 285--288: the player's box against the coin's square, all four strict.\<close>

definition touches :: "player \<Rightarrow> coin \<Rightarrow> bool" where
  "touches p c =
     (px p < coin_x c + coin_r c \<and>
      px p + pw p > coin_x c - coin_r c \<and>
      py p < coin_y c + coin_r c \<and>
      py p + ph p > coin_y c - coin_r c)"

text \<open>
  Lines 281--293: \<open>for (let i = coins.length - 1; i >= 0; i--)\<close>. The counter of the
  recursion is \<open>i + 1\<close>, so that \<open>0\<close> is the loop's exit; \<open>coins.splice(i, 1)\<close> removes the
  element at index \<open>i\<close>. The loop starts below the length and only removes at the current
  index, so \<open>cs ! i\<close> is always in range (lemma \<open>collect_filter\<close>).
\<close>

fun collect :: "player \<Rightarrow> nat \<Rightarrow> coin list \<Rightarrow> int \<Rightarrow> coin list \<times> int" where
  "collect p 0 cs s = (cs, s)"
| "collect p (Suc i) cs s =
     (if touches p (cs ! i) then collect p i (take i cs @ drop (Suc i) cs) (s + 10)
      else collect p i cs s)"

text \<open>Lines 277--299 of \<open>updateGame\<close>; the two labels of the page are not modelled.\<close>

definition updateGame :: "keys \<Rightarrow> real \<Rightarrow> game \<Rightarrow> game" where
  "updateGame ks H g =
     (if win g then g
      else
        let p = update ks H (platforms g) (player g);
            (cs, s) = collect p (length (coins g)) (coins g) (score g);
            g1 = g\<lparr>player := p, coins := cs, score := s\<rparr>
        in if px p + pw p > world_width - 50 then g1\<lparr>win := True\<rparr> else g1)"

text \<open>
  \<open>gameLoop\<close> calls \<open>updateGame\<close> once per animation frame, forever; a run is a finite
  prefix of it, given by the \<open>keys\<close> table as it stood at each frame.
\<close>

fun run :: "real \<Rightarrow> game \<Rightarrow> keys list \<Rightarrow> game" where
  "run H g [] = g"
| "run H g (ks # kss) = run H (updateGame ks H g) kss"

subsection \<open>Concrete inputs used below\<close>

text \<open>Every definition of the model, for evaluating a frame on a concrete state.\<close>

lemmas sim_defs = updateGame_def update_def before_collision_def fall_check_def respawn_def
  gravity_def jump_def clamp_x_def move_x_def horizontal_def friction_def collide_def hits_def
  touches_def left_held_def right_held_def jump_held_def held_def world_width_def
  world_gravity_def initial_def newPlayer_def level_platforms_def level_coins_def Coin_def
  Platform_def Let_def

text \<open>The player standing on the ground of a 400 pixel canvas, 52 pixels from the goal line.\<close>

definition near_goal :: game where
  "near_goal = (initial 400)\<lparr>player := newPlayer\<lparr>px := 2908, py := 290, onGround := True\<rparr>\<rparr>"

text \<open>Left and right held in the same frame.\<close>

definition both_keys :: keys where
  "both_keys = [''ArrowLeft'' \<mapsto> True, ''ArrowRight'' \<mapsto> True]"

text \<open>One frame before the first landing: 32 idle frames after the start.\<close>

definition falling :: player where
  "falling = newPlayer\<lparr>py := 264, vy := 16\<rparr>"

text \<open>
  The player at rest on the ground of a 400 pixel canvas, below the spawn point: the state
  33 idle frames after the start.
\<close>

definition standing :: game where
  "standing = (initial 400)\<lparr>player := newPlayer\<lparr>py := 290, onGround := True\<rparr>\<rparr>"

text \<open>Only the left arrow held.\<close>

definition left_key :: keys where
  "left_key = [''ArrowLeft'' \<mapsto> True]"

text \<open>
  A player on the ground, 2 pixels from the last position the world allows (2960), in a
  game not yet marked as won.
\<close>

definition at_right_edge :: game where
  "at_right_edge = (initial 400)\<lparr>player := newPlayer\<lparr>px := 2958, py := 290, onGround := True\<rparr>\<rparr>"

text \<open>
  The collision test in C4's wording, to compare with \<open>hits\<close>: the tolerance of 5 is
  tested on the bottom edge before line 186 adds \<open>vy\<close> to \<open>y\<close> (\<open>y_before\<close> is that \<open>y\<close>),
  and reaching the platform's top is tested on the bottom edge after it (\<open>q\<close> is the
  player when the loop runs).
\<close>

definition test_as_worded :: "real \<Rightarrow> player \<Rightarrow> platform \<Rightarrow> bool" where
  "test_as_worded y_before q plat =
     (vy q \<ge> 0 \<and>
      px q + pw q > plat_x plat \<and>
      px q < plat_x plat + plat_w plat \<and>
      y_before + ph q \<le> plat_y plat + 5 \<and>
      py q + ph q \<ge> plat_y plat)"

text \<open>A player below the fall limit of a 400 pixel canvas (600) and moving up.\<close>

definition below_world :: game where
  "below_world = (initial 400)\<lparr>player := newPlayer\<lparr>px := 300, py := 601, vy := - 12\<rparr>\<rparr>"

text \<open>A player below the fall limit and moving down.\<close>

definition dropped :: game where
  "dropped = (initial 400)\<lparr>player := newPlayer\<lparr>px := 300, py := 601, vx := 4, vy := 3\<rparr>\<rparr>"

text \<open>The right arrow held, and the right arrow with the space bar.\<close>

definition right_key :: keys where
  "right_key = [''ArrowRight'' \<mapsto> True]"

definition right_jump_key :: keys where
  "right_jump_key = [''ArrowRight'' \<mapsto> True, ''Space'' \<mapsto> True]"

text \<open>
  A state of the game on a 400 pixel canvas: the player at \<open>(x, y)\<close> with velocity
  \<open>(u, v)\<close>, the first \<open>n\<close> coins of the level collected.
\<close>

definition snapshot :: "real \<Rightarrow> real \<Rightarrow> real \<Rightarrow> real \<Rightarrow> bool \<Rightarrow> nat \<Rightarrow> game" where
  "snapshot x y u v og n =
     (initial 400)\<lparr>player := newPlayer\<lparr>px := x, py := y, vx := u, vy := v, onGround := og\<rparr>,
                    coins := drop n (level_coins 400), score := 10 * int n\<rparr>"

text \<open>
  665 frames of play: the player falls to the ground, then runs right all the way, with
  eight jumps of one frame each (platform to platform for the coins that cannot be reached
  from the ground).
\<close>

definition all_coins_run :: "keys list" where
  "all_coins_run =
     replicate 33 Map.empty @
     replicate 38 right_key @
     (right_jump_key # replicate 39 right_key) @
     (right_jump_key # replicate 54 right_key) @
     (right_jump_key # replicate 83 right_key) @
     (right_jump_key # replicate 138 right_key) @
     (right_jump_key # replicate 36 right_key) @
     (right_jump_key # replicate 76 right_key) @
     (right_jump_key # replicate 127 right_key) @
     (right_jump_key # replicate 33 right_key)"

section \<open>Auxiliary facts\<close>

subsection \<open>What each statement of update writes\<close>

lemma horizontal_eq:
  "horizontal ks p =
     p\<lparr>vx := (if right_held ks then speed p else if left_held ks then - speed p
               else friction (vx p))\<rparr>"
  by (simp add: horizontal_def)

lemma horizontal_keeps:
  "pw (horizontal ks p) = pw p" "ph (horizontal ks p) = ph p" "px (horizontal ks p) = px p"
  "py (horizontal ks p) = py p" "vy (horizontal ks p) = vy p"
  "speed (horizontal ks p) = speed p" "jumpStrength (horizontal ks p) = jumpStrength p"
  "onGround (horizontal ks p) = onGround p"
  by (simp_all add: horizontal_eq)

lemma move_x_keeps:
  "pw (move_x p) = pw p" "ph (move_x p) = ph p" "py (move_x p) = py p" "vx (move_x p) = vx p"
  "vy (move_x p) = vy p" "speed (move_x p) = speed p" "jumpStrength (move_x p) = jumpStrength p"
  "onGround (move_x p) = onGround p"
  by (simp_all add: move_x_def)

lemma clamp_x_keeps:
  "pw (clamp_x p) = pw p" "ph (clamp_x p) = ph p" "py (clamp_x p) = py p"
  "vy (clamp_x p) = vy p" "speed (clamp_x p) = speed p"
  "jumpStrength (clamp_x p) = jumpStrength p" "onGround (clamp_x p) = onGround p"
  by (simp_all add: clamp_x_def)

lemma jump_keeps:
  "pw (jump ks p) = pw p" "ph (jump ks p) = ph p" "px (jump ks p) = px p"
  "py (jump ks p) = py p" "vx (jump ks p) = vx p" "speed (jump ks p) = speed p"
  "jumpStrength (jump ks p) = jumpStrength p"
  by (simp_all add: jump_def)

lemma jump_vy:
  "vy (jump ks p) = (if jump_held ks \<and> onGround p then - jumpStrength p else vy p)"
  by (simp add: jump_def)

lemma gravity_keeps:
  "pw (gravity p) = pw p" "ph (gravity p) = ph p" "px (gravity p) = px p"
  "vx (gravity p) = vx p" "speed (gravity p) = speed p"
  "jumpStrength (gravity p) = jumpStrength p" "onGround (gravity p) = onGround p"
  by (simp_all add: gravity_def Let_def)

lemma gravity_moves:
  "vy (gravity p) = vy p + world_gravity" "py (gravity p) = py p + (vy p + world_gravity)"
  by (simp_all add: gravity_def Let_def)

lemma fall_check_keeps:
  "pw (fall_check H p) = pw p" "ph (fall_check H p) = ph p" "speed (fall_check H p) = speed p"
  "jumpStrength (fall_check H p) = jumpStrength p" "onGround (fall_check H p) = onGround p"
  by (simp_all add: fall_check_def respawn_def)

lemma fall_check_resets:
  "px (fall_check H p) = (if py p > H + 200 then 50 else px p)"
  "py (fall_check H p) = (if py p > H + 200 then 0 else py p)"
  "vx (fall_check H p) = (if py p > H + 200 then 0 else vx p)"
  "vy (fall_check H p) = (if py p > H + 200 then 0 else vy p)"
  by (simp_all add: fall_check_def respawn_def)

lemmas stage_keeps = horizontal_keeps move_x_keeps clamp_x_keeps jump_keeps gravity_keeps
  fall_check_keeps

lemma falls_out_iff:
  "falls_out ks H p \<longleftrightarrow>
     py (gravity (jump ks (clamp_x (move_x (horizontal ks p))))) > H + 200"
  by (simp add: falls_out_def gravity_moves stage_keeps jump_vy)

text \<open>The player when the loop over the platforms starts, field by field.\<close>

lemma before_collision_fields:
  "pw (before_collision ks H p) = pw p"
  "ph (before_collision ks H p) = ph p"
  "speed (before_collision ks H p) = speed p"
  "jumpStrength (before_collision ks H p) = jumpStrength p"
  "onGround (before_collision ks H p) = False"
  "px (before_collision ks H p) =
     (if falls_out ks H p then 50 else px (clamp_x (move_x (horizontal ks p))))"
  "vx (before_collision ks H p) =
     (if falls_out ks H p then 0 else vx (clamp_x (move_x (horizontal ks p))))"
  "py (before_collision ks H p) =
     (if falls_out ks H p then 0 else py p + (vy (jump ks p) + world_gravity))"
  "vy (before_collision ks H p) =
     (if falls_out ks H p then 0 else vy (jump ks p) + world_gravity)"
  by (simp_all add: before_collision_def falls_out_def stage_keeps gravity_moves
      fall_check_resets jump_vy)

subsection \<open>The platform loop leaves the horizontal data alone\<close>

lemma collide_keeps:
  "px (collide q plat) = px q" "pw (collide q plat) = pw q" "ph (collide q plat) = ph q"
  "vx (collide q plat) = vx q" "speed (collide q plat) = speed q"
  "jumpStrength (collide q plat) = jumpStrength q"
  by (simp_all add: collide_def)

lemma foldl_collide_keeps:
  "px (foldl collide q plats) = px q \<and> pw (foldl collide q plats) = pw q \<and>
   ph (foldl collide q plats) = ph q \<and> vx (foldl collide q plats) = vx q \<and>
   speed (foldl collide q plats) = speed q \<and>
   jumpStrength (foldl collide q plats) = jumpStrength q"
  by (induction plats arbitrary: q) (simp_all add: collide_keeps)

text \<open>A rising player (\<open>vy < 0\<close>) passes through every platform.\<close>

lemma foldl_collide_rising: "vy q < 0 \<Longrightarrow> foldl collide q plats = q"
  by (induction plats) (simp_all add: collide_def hits_def)

subsection \<open>The coin loop is a filter\<close>

lemma collect_filter:
  "n \<le> length cs \<Longrightarrow>
   collect p n cs s =
     (filter (\<lambda>c. \<not> touches p c) (take n cs) @ drop n cs,
      s + 10 * int (length (filter (touches p) (take n cs))))"
proof (induction n arbitrary: cs s)
  case 0
  then show ?case by simp
next
  case (Suc i)
  then have i: "i < length cs" by simp
  have tk: "take (Suc i) cs = take i cs @ [cs ! i]"
    using i by (simp add: take_Suc_conv_app_nth)
  show ?case
  proof (cases "touches p (cs ! i)")
    case True
    define cs' where "cs' = take i cs @ drop (Suc i) cs"
    have len: "i \<le> length cs'" using i by (simp add: cs'_def)
    have t: "take i cs' = take i cs" using i by (simp add: cs'_def min_def)
    have d: "drop i cs' = drop (Suc i) cs" using i by (simp add: cs'_def min_def)
    have "collect p (Suc i) cs s = collect p i cs' (s + 10)"
      using True by (simp add: cs'_def)
    also have "\<dots> = (filter (\<lambda>c. \<not> touches p c) (take i cs') @ drop i cs',
        s + 10 + 10 * int (length (filter (touches p) (take i cs'))))"
      by (rule Suc.IH [OF len])
    finally show ?thesis
      using True by (simp add: t d tk)
  next
    case False
    have len: "i \<le> length cs" using i by simp
    have d: "drop i cs = cs ! i # drop (Suc i) cs"
      using i by (simp add: Cons_nth_drop_Suc)
    have "collect p (Suc i) cs s = collect p i cs s"
      using False by simp
    also have "\<dots> = (filter (\<lambda>c. \<not> touches p c) (take i cs) @ drop i cs,
        s + 10 * int (length (filter (touches p) (take i cs))))"
      by (rule Suc.IH [OF len])
    finally show ?thesis
      using False by (simp add: d tk)
  qed
qed

lemma collect_all:
  "collect p (length cs) cs s =
     (filter (\<lambda>c. \<not> touches p c) cs, s + 10 * int (length (filter (touches p) cs)))"
  using collect_filter [of "length cs" cs p s] by simp

subsection \<open>What updateGame writes\<close>

lemma updateGame_won: "win g \<Longrightarrow> updateGame ks H g = g"
  by (simp add: updateGame_def)

lemma run_won: "win g \<Longrightarrow> run H g kss = g"
  by (induction kss) (simp_all add: updateGame_won)

lemma updateGame_player:
  "player (updateGame ks H g) = (if win g then player g else update ks H (platforms g) (player g))"
  by (simp add: updateGame_def Let_def split: prod.splits)

lemma updateGame_platforms: "platforms (updateGame ks H g) = platforms g"
  by (simp add: updateGame_def Let_def split: prod.splits)

lemma updateGame_win:
  "win (updateGame ks H g) \<longleftrightarrow>
     win g \<or> px (update ks H (platforms g) (player g))
               + pw (update ks H (platforms g) (player g)) > world_width - 50"
  by (simp add: updateGame_def Let_def split: prod.splits)

subsection \<open>The platform loop and the grounded flag\<close>

lemma collide_onGround: "onGround (collide q pl) \<longleftrightarrow> hits q pl \<or> onGround q"
  by (simp add: collide_def)

lemma collide_rest:
  "hits q pl \<Longrightarrow> vy (collide q pl) = 0 \<and> py (collide q pl) + ph (collide q pl) = plat_y pl"
  by (simp add: collide_def)

lemma collide_miss: "\<not> hits q pl \<Longrightarrow> collide q pl = q"
  by (simp add: collide_def)

lemma foldl_collide_resting:
  "\<not> onGround q \<Longrightarrow> onGround (foldl collide q plats) \<Longrightarrow>
   vy (foldl collide q plats) = 0 \<and>
   (\<exists>pl\<in>set plats. py (foldl collide q plats) + ph (foldl collide q plats) = plat_y pl)"
proof (induction plats rule: rev_induct)
  case Nil
  then show ?case by simp
next
  case (snoc pl plats)
  let ?r = "foldl collide q plats"
  show ?case
  proof (cases "hits ?r pl")
    case True
    then show ?thesis using collide_rest [of ?r pl] by simp
  next
    case False
    then have same: "foldl collide q (plats @ [pl]) = ?r" by (simp add: collide_miss)
    with snoc.prems have "onGround ?r" by simp
    with snoc.IH snoc.prems(1) show ?thesis unfolding same by auto
  qed
qed

lemma foldl_collide_onGround:
  "\<not> onGround q \<Longrightarrow>
   onGround (foldl collide q plats) \<longleftrightarrow>
     (\<exists>as pl bs. plats = as @ pl # bs \<and> hits (foldl collide q as) pl)"
proof (induction plats rule: rev_induct)
  case Nil
  then show ?case by simp
next
  case (snoc x xs)
  let ?r = "foldl collide q xs"
  have step: "onGround (foldl collide q (xs @ [x])) \<longleftrightarrow> hits ?r x \<or> onGround ?r"
    by (simp add: collide_onGround)
  have "(\<exists>as pl bs. xs @ [x] = as @ pl # bs \<and> hits (foldl collide q as) pl) \<longleftrightarrow>
        hits ?r x \<or> (\<exists>as pl bs. xs = as @ pl # bs \<and> hits (foldl collide q as) pl)"
    (is "?L \<longleftrightarrow> ?R")
  proof
    assume ?L
    then obtain as pl bs where e: "xs @ [x] = as @ pl # bs" and h: "hits (foldl collide q as) pl"
      by blast
    show ?R
    proof (cases bs rule: rev_cases)
      case Nil
      with e have "xs = as" "x = pl" by simp_all
      with h show ?thesis by simp
    next
      case (snoc bs' b)
      with e have "xs = as @ pl # bs'" by simp
      with h show ?thesis by blast
    qed
  next
    assume ?R
    then show ?L
    proof
      assume "hits ?r x"
      then have "xs @ [x] = xs @ x # [] \<and> hits (foldl collide q xs) x" by simp
      then show ?L by blast
    next
      assume "\<exists>as pl bs. xs = as @ pl # bs \<and> hits (foldl collide q as) pl"
      then obtain as pl bs where "xs = as @ pl # bs" "hits (foldl collide q as) pl" by blast
      then have "xs @ [x] = as @ pl # (bs @ [x]) \<and> hits (foldl collide q as) pl" by simp
      then show ?L by blast
    qed
  qed
  with step snoc.IH [OF snoc.prems] show ?case by simp
qed

subsection \<open>Runs, and the horizontal clamp\<close>

lemma run_append: "run H g (as @ bs) = run H (run H g as) bs"
  by (induction as arbitrary: g) simp_all

lemma run_snoc: "run H g (kss @ [ks]) = updateGame ks H (run H g kss)"
  by (simp add: run_append)

lemma clamp_x_range:
  "pw q \<le> world_width \<Longrightarrow> 0 \<le> px (clamp_x q) \<and> px (clamp_x q) \<le> world_width - pw q"
  by (simp add: clamp_x_def)

lemma clamp_x_fires:
  "px q < 0 \<or> px q + pw q > world_width \<Longrightarrow> vx (clamp_x q) = 0"
  by (auto simp add: clamp_x_def)

lemma update_x_range:
  "pw p \<le> world_width - 50 \<Longrightarrow>
   0 \<le> px (update ks H plats p) \<and> px (update ks H plats p) \<le> world_width - pw p"
  using clamp_x_range [of "move_x (horizontal ks p)"]
  by (simp add: update_def foldl_collide_keeps before_collision_fields stage_keeps
      world_width_def)

lemma update_pw: "pw (update ks H plats p) = pw p"
  by (simp add: update_def foldl_collide_keeps before_collision_fields)

lemma update_clamped:
  "px (move_x (horizontal ks p)) < 0 \<or> px (move_x (horizontal ks p)) + pw p > world_width \<Longrightarrow>
   vx (update ks H plats p) = 0"
  using clamp_x_fires [of "move_x (horizontal ks p)"]
  by (simp add: update_def foldl_collide_keeps before_collision_fields stage_keeps)

lemma update_x_clamp:
  "\<not> falls_out ks H p \<Longrightarrow>
   px (update ks H plats p) =
     (if px (move_x (horizontal ks p)) < 0 then 0
      else if px (move_x (horizontal ks p)) + pw p > world_width then world_width - pw p
      else px (move_x (horizontal ks p)))"
  by (simp add: update_def foldl_collide_keeps before_collision_fields clamp_x_def stage_keeps)

lemma updateGame_in_world:
  assumes "pw (player g) = 40" and "0 \<le> px (player g)"
    and "px (player g) \<le> world_width - 40"
  shows "pw (player (updateGame ks H g)) = 40 \<and> 0 \<le> px (player (updateGame ks H g)) \<and>
         px (player (updateGame ks H g)) \<le> world_width - 40"
proof (cases "win g")
  case True
  then show ?thesis using assms by (simp add: updateGame_won)
next
  case False
  have "pw (player g) \<le> world_width - 50"
    using assms(1) by (simp add: world_width_def)
  from update_x_range [OF this, of ks H "platforms g"] False assms(1)
  show ?thesis by (simp add: updateGame_player update_pw)
qed

lemma run_in_world:
  "pw (player g) = 40 \<Longrightarrow> 0 \<le> px (player g) \<Longrightarrow> px (player g) \<le> world_width - 40 \<Longrightarrow>
   pw (player (run H g kss)) = 40 \<and> 0 \<le> px (player (run H g kss)) \<and>
   px (player (run H g kss)) \<le> world_width - 40"
proof (induction kss arbitrary: g)
  case Nil
  then show ?case by simp
next
  case (Cons ks kss)
  from updateGame_in_world [OF Cons.prems, of ks H]
  show ?case using Cons.IH [of "updateGame ks H g"] by simp
qed

lemma initial_in_world:
  "pw (player (initial H)) = 40 \<and> 0 \<le> px (player (initial H)) \<and>
   px (player (initial H)) \<le> world_width - 40"
  by (simp add: initial_def newPlayer_def world_width_def)

subsection \<open>Score and coins\<close>

lemma updateGame_coins:
  "coins (updateGame ks H g) =
     (if win g then coins g
      else filter (\<lambda>c. \<not> touches (update ks H (platforms g) (player g)) c) (coins g))"
  by (simp add: updateGame_def collect_all Let_def)

lemma updateGame_score:
  "score (updateGame ks H g) =
     (if win g then score g
      else score g + 10 * int (length (filter (touches (update ks H (platforms g) (player g)))
                                  (coins g))))"
  by (simp add: updateGame_def collect_all Let_def)

lemma updateGame_score_coins:
  "score (updateGame ks H g) + 10 * int (length (coins (updateGame ks H g)))
     = score g + 10 * int (length (coins g))"
proof (cases "win g")
  case True
  then show ?thesis by (simp add: updateGame_won)
next
  case False
  let ?P = "touches (update ks H (platforms g) (player g))"
  have "length (filter ?P (coins g)) + length (filter (\<lambda>c. \<not> ?P c) (coins g))
      = length (coins g)"
    by (rule sum_length_filter_compl)
  then have "int (length (filter ?P (coins g))) + int (length (filter (\<lambda>c. \<not> ?P c) (coins g)))
      = int (length (coins g))"
    by linarith
  moreover have "score (updateGame ks H g) = score g + 10 * int (length (filter ?P (coins g)))"
    using False by (simp add: updateGame_score)
  moreover have "coins (updateGame ks H g) = filter (\<lambda>c. \<not> ?P c) (coins g)"
    using False by (simp add: updateGame_coins)
  ultimately show ?thesis by simp
qed

lemma run_score_coins:
  "score (run H g kss) + 10 * int (length (coins (run H g kss)))
     = score g + 10 * int (length (coins g))"
proof (induction kss arbitrary: g)
  case Nil
  show ?case by simp
next
  case (Cons ks kss)
  have "score (run H g (ks # kss)) + 10 * int (length (coins (run H g (ks # kss))))
      = score (updateGame ks H g) + 10 * int (length (coins (updateGame ks H g)))"
    using Cons.IH [of "updateGame ks H g"] by simp
  then show ?case by (simp only: updateGame_score_coins)
qed

lemma updateGame_coins_filter: "\<exists>Q. coins (updateGame ks H g) = filter Q (coins g)"
proof (cases "win g")
  case True
  then show ?thesis
    by (intro exI [of _ "\<lambda>c. True"]) (simp add: updateGame_won)
next
  case False
  then show ?thesis
    by (intro exI [of _ "\<lambda>c. \<not> touches (update ks H (platforms g) (player g)) c"])
      (simp add: updateGame_coins)
qed

lemma run_coins_filter: "\<exists>P. coins (run H g kss) = filter P (coins g)"
proof (induction kss arbitrary: g)
  case Nil
  show ?case
    by (intro exI [of _ "\<lambda>c. True"]) simp
next
  case (Cons ks kss)
  obtain P where P: "coins (run H (updateGame ks H g) kss) = filter P (coins (updateGame ks H g))"
    using Cons.IH by blast
  obtain Q where Q: "coins (updateGame ks H g) = filter Q (coins g)"
    using updateGame_coins_filter by blast
  show ?case
    by (intro exI [of _ "\<lambda>c. Q c \<and> P c"]) (simp add: P Q)
qed

lemma distinct_level_coins: "distinct (level_coins H)"
  by (simp add: level_coins_def Coin_def)

lemma card_removed:
  "distinct cs \<Longrightarrow> int (card (set cs - set (filter P cs))) = int (length cs) - int (length (filter P cs))"
proof -
  assume d: "distinct cs"
  have "set cs - set (filter P cs) = set (filter (\<lambda>c. \<not> P c) cs)" by auto
  moreover have "card (set (filter (\<lambda>c. \<not> P c) cs)) = length (filter (\<lambda>c. \<not> P c) cs)"
    using d by (intro distinct_card distinct_filter)
  ultimately have "card (set cs - set (filter P cs)) = length (filter (\<lambda>c. \<not> P c) cs)"
    by (simp only:)
  moreover have "length (filter P cs) + length (filter (\<lambda>c. \<not> P c) cs) = length cs"
    by (rule sum_length_filter_compl)
  ultimately show ?thesis by linarith
qed

subsection \<open>The loop, platform by platform\<close>

lemma update_snoc: "update ks H (as @ [plat]) p = collide (update ks H as p) plat"
  by (simp add: update_def)

lemma update_nil: "update ks H [] p = before_collision ks H p"
  by (simp add: update_def)

lemma foldl_collide_misses:
  "(\<forall>plat\<in>set plats. \<not> hits q plat) \<Longrightarrow> foldl collide q plats = q"
  by (induction plats) (simp_all add: collide_miss)

lemma spawn_misses_level:
  assumes "px q = 50" "pw q = 40" "py q = 0" "ph q = 60" "vy q = 0" "H < 105 \<or> 110 < H"
  shows "foldl collide q (level_platforms H) = q"
proof -
  have "\<not> hits q (Platform 0 (H - 50) world_width 50)"
    using assms by (auto simp add: hits_def Platform_def)
  moreover have "\<not> hits q (Platform a b c d)" if "90 \<le> a" for a b c d
    using assms that by (simp add: hits_def Platform_def)
  ultimately have "\<forall>plat\<in>set (level_platforms H). \<not> hits q plat"
    by (simp add: level_platforms_def)
  then show ?thesis by (rule foldl_collide_misses)
qed

text \<open>The state \<open>falling\<close> is the player 32 idle frames after the start.\<close>

lemma falling_reachable: "player (run 400 (initial 400) (replicate 32 Map.empty)) = falling"
  by (simp add: eval_nat_numeral falling_def sim_defs)

text \<open>The next frame puts that player on the ground.\<close>

lemma falling_lands:
  "update Map.empty 400 (level_platforms 400) falling
     = newPlayer\<lparr>py := 290, vy := 0, onGround := True\<rparr>"
  by (simp add: falling_def sim_defs)

subsection \<open>A run that collects every coin\<close>

text \<open>
  The run \<open>all_coins_run\<close>, evaluated leg by leg (a leg is one jump with the running after
  it); the long legs are cut into pieces of at most 35 frames.
\<close>

lemma leg1:
  "run 400 (snapshot 50 0 0 0 False 0)
     (replicate 33 Map.empty)
   = snapshot 50 290 0 0 True 0"
  by (simp add: eval_nat_numeral snapshot_def right_key_def right_jump_key_def sim_defs)

lemma leg2_a:
  "run 400 (snapshot 50 290 0 0 True 0)
     (replicate 35 right_key)
   = snapshot 190 290 4 0 True 0"
  by (simp add: eval_nat_numeral snapshot_def right_key_def right_jump_key_def sim_defs)

lemma leg2_b:
  "run 400 (snapshot 190 290 4 0 True 0)
     (replicate 3 right_key)
   = snapshot 202 290 4 0 True 0"
  by (simp add: eval_nat_numeral snapshot_def right_key_def right_jump_key_def sim_defs)

lemma leg2:
  "run 400 (snapshot 50 290 0 0 True 0)
     (replicate 38 right_key)
   = snapshot 202 290 4 0 True 0"
proof -
  have "replicate 38 right_key
      = replicate 35 right_key @ replicate 3 right_key"
    by (simp add: replicate_add [symmetric])
  then show ?thesis
    by (simp only: run_append leg2_a leg2_b)
qed

lemma leg3_a:
  "run 400 (snapshot 202 290 4 0 True 0)
     (right_jump_key # replicate 34 right_key)
   = snapshot 342 185 4 (11 / 2) False 1"
  by (simp add: eval_nat_numeral snapshot_def right_key_def right_jump_key_def sim_defs)

lemma leg3_b:
  "run 400 (snapshot 342 185 4 (11 / 2) False 1)
     (replicate 5 right_key)
   = snapshot 362 220 4 0 True 1"
  by (simp add: eval_nat_numeral snapshot_def right_key_def right_jump_key_def sim_defs)

lemma leg3:
  "run 400 (snapshot 202 290 4 0 True 0)
     (right_jump_key # replicate 39 right_key)
   = snapshot 362 220 4 0 True 1"
proof -
  have "right_jump_key # replicate 39 right_key
      = (right_jump_key # replicate 34 right_key) @ replicate 5 right_key"
    by (simp add: replicate_add [symmetric])
  then show ?thesis
    by (simp only: run_append leg3_a leg3_b)
qed

lemma leg4_a:
  "run 400 (snapshot 362 220 4 0 True 1)
     (right_jump_key # replicate 34 right_key)
   = snapshot 502 115 4 (11 / 2) False 2"
  by (simp add: eval_nat_numeral snapshot_def right_key_def right_jump_key_def sim_defs)

lemma leg4_b:
  "run 400 (snapshot 502 115 4 (11 / 2) False 2)
     (replicate 20 right_key)
   = snapshot 582 140 4 0 True 2"
  by (simp add: eval_nat_numeral snapshot_def right_key_def right_jump_key_def sim_defs)

lemma leg4:
  "run 400 (snapshot 362 220 4 0 True 1)
     (right_jump_key # replicate 54 right_key)
   = snapshot 582 140 4 0 True 2"
proof -
  have "right_jump_key # replicate 54 right_key
      = (right_jump_key # replicate 34 right_key) @ replicate 20 right_key"
    by (simp add: replicate_add [symmetric])
  then show ?thesis
    by (simp only: run_append leg4_a leg4_b)
qed

lemma leg5_a:
  "run 400 (snapshot 582 140 4 0 True 2)
     (right_jump_key # replicate 34 right_key)
   = snapshot 722 35 4 (11 / 2) False 2"
  by (simp add: eval_nat_numeral snapshot_def right_key_def right_jump_key_def sim_defs)

lemma leg5_b:
  "run 400 (snapshot 722 35 4 (11 / 2) False 2)
     (replicate 35 right_key)
   = snapshot 862 190 4 0 True 3"
  by (simp add: eval_nat_numeral snapshot_def right_key_def right_jump_key_def sim_defs)

lemma leg5_c:
  "run 400 (snapshot 862 190 4 0 True 3)
     (replicate 14 right_key)
   = snapshot 918 190 4 0 True 3"
  by (simp add: eval_nat_numeral snapshot_def right_key_def right_jump_key_def sim_defs)

lemma leg5:
  "run 400 (snapshot 582 140 4 0 True 2)
     (right_jump_key # replicate 83 right_key)
   = snapshot 918 190 4 0 True 3"
proof -
  have "right_jump_key # replicate 83 right_key
      = (right_jump_key # replicate 34 right_key) @ replicate 35 right_key @ replicate 14 right_key"
    by (simp add: replicate_add [symmetric])
  then show ?thesis
    by (simp only: run_append leg5_a leg5_b leg5_c)
qed

lemma leg6_a:
  "run 400 (snapshot 918 190 4 0 True 3)
     (right_jump_key # replicate 34 right_key)
   = snapshot 1058 85 4 (11 / 2) False 3"
  by (simp add: eval_nat_numeral snapshot_def right_key_def right_jump_key_def sim_defs)

lemma leg6_b:
  "run 400 (snapshot 1058 85 4 (11 / 2) False 3)
     (replicate 35 right_key)
   = snapshot 1198 90 4 0 True 4"
  by (simp add: eval_nat_numeral snapshot_def right_key_def right_jump_key_def sim_defs)

lemma leg6_c:
  "run 400 (snapshot 1198 90 4 0 True 4)
     (replicate 35 right_key)
   = snapshot 1338 228 4 (23 / 2) False 4"
  by (simp add: eval_nat_numeral snapshot_def right_key_def right_jump_key_def sim_defs)

lemma leg6_d:
  "run 400 (snapshot 1338 228 4 (23 / 2) False 4)
     (replicate 34 right_key)
   = snapshot 1474 290 4 0 True 4"
  by (simp add: eval_nat_numeral snapshot_def right_key_def right_jump_key_def sim_defs)

lemma leg6:
  "run 400 (snapshot 918 190 4 0 True 3)
     (right_jump_key # replicate 138 right_key)
   = snapshot 1474 290 4 0 True 4"
proof -
  have "right_jump_key # replicate 138 right_key
      = (right_jump_key # replicate 34 right_key) @ replicate 35 right_key @ replicate 35 right_key @ replicate 34 right_key"
    by (simp add: replicate_add [symmetric])
  then show ?thesis
    by (simp only: run_append leg6_a leg6_b leg6_c leg6_d)
qed

lemma leg7_a:
  "run 400 (snapshot 1474 290 4 0 True 4)
     (right_jump_key # replicate 34 right_key)
   = snapshot 1614 160 4 0 True 5"
  by (simp add: eval_nat_numeral snapshot_def right_key_def right_jump_key_def sim_defs)

lemma leg7_b:
  "run 400 (snapshot 1614 160 4 0 True 5)
     (replicate 2 right_key)
   = snapshot 1622 160 4 0 True 5"
  by (simp add: eval_nat_numeral snapshot_def right_key_def right_jump_key_def sim_defs)

lemma leg7:
  "run 400 (snapshot 1474 290 4 0 True 4)
     (right_jump_key # replicate 36 right_key)
   = snapshot 1622 160 4 0 True 5"
proof -
  have "right_jump_key # replicate 36 right_key
      = (right_jump_key # replicate 34 right_key) @ replicate 2 right_key"
    by (simp add: replicate_add [symmetric])
  then show ?thesis
    by (simp only: run_append leg7_a leg7_b)
qed

lemma leg8_a:
  "run 400 (snapshot 1622 160 4 0 True 5)
     (right_jump_key # replicate 34 right_key)
   = snapshot 1762 55 4 (11 / 2) False 5"
  by (simp add: eval_nat_numeral snapshot_def right_key_def right_jump_key_def sim_defs)

lemma leg8_b:
  "run 400 (snapshot 1762 55 4 (11 / 2) False 5)
     (replicate 35 right_key)
   = snapshot 1902 240 4 0 True 6"
  by (simp add: eval_nat_numeral snapshot_def right_key_def right_jump_key_def sim_defs)

lemma leg8_c:
  "run 400 (snapshot 1902 240 4 0 True 6)
     (replicate 7 right_key)
   = snapshot 1930 240 4 0 True 6"
  by (simp add: eval_nat_numeral snapshot_def right_key_def right_jump_key_def sim_defs)

lemma leg8:
  "run 400 (snapshot 1622 160 4 0 True 5)
     (right_jump_key # replicate 76 right_key)
   = snapshot 1930 240 4 0 True 6"
proof -
  have "right_jump_key # replicate 76 right_key
      = (right_jump_key # replicate 34 right_key) @ replicate 35 right_key @ replicate 7 right_key"
    by (simp add: replicate_add [symmetric])
  then show ?thesis
    by (simp only: run_append leg8_a leg8_b leg8_c)
qed

lemma leg9_a:
  "run 400 (snapshot 1930 240 4 0 True 6)
     (right_jump_key # replicate 34 right_key)
   = snapshot 2070 120 4 0 True 6"
  by (simp add: eval_nat_numeral snapshot_def right_key_def right_jump_key_def sim_defs)

lemma leg9_b:
  "run 400 (snapshot 2070 120 4 0 True 6)
     (replicate 35 right_key)
   = snapshot 2210 120 4 0 True 7"
  by (simp add: eval_nat_numeral snapshot_def right_key_def right_jump_key_def sim_defs)

lemma leg9_c:
  "run 400 (snapshot 2210 120 4 0 True 7)
     (replicate 35 right_key)
   = snapshot 2350 (411 / 2) 4 9 False 7"
  by (simp add: eval_nat_numeral snapshot_def right_key_def right_jump_key_def sim_defs)

lemma leg9_d:
  "run 400 (snapshot 2350 (411 / 2) 4 9 False 7)
     (replicate 23 right_key)
   = snapshot 2442 290 4 0 True 7"
  by (simp add: eval_nat_numeral snapshot_def right_key_def right_jump_key_def sim_defs)

lemma leg9:
  "run 400 (snapshot 1930 240 4 0 True 6)
     (right_jump_key # replicate 127 right_key)
   = snapshot 2442 290 4 0 True 7"
proof -
  have "right_jump_key # replicate 127 right_key
      = (right_jump_key # replicate 34 right_key) @ replicate 35 right_key @ replicate 35 right_key @ replicate 23 right_key"
    by (simp add: replicate_add [symmetric])
  then show ?thesis
    by (simp only: run_append leg9_a leg9_b leg9_c leg9_d)
qed

lemma leg10:
  "run 400 (snapshot 2442 290 4 0 True 7)
     (right_jump_key # replicate 33 right_key)
   = snapshot 2578 180 4 0 True 8"
  by (simp add: eval_nat_numeral snapshot_def right_key_def right_jump_key_def sim_defs)

lemma all_coins_run_ends:
  "run 400 (initial 400) all_coins_run = snapshot 2578 180 4 0 True 8"
proof -
  have "initial 400 = snapshot 50 0 0 0 False 0"
    by (simp add: snapshot_def initial_def newPlayer_def)
  then show ?thesis
    unfolding all_coins_run_def
    by (simp only: run_append leg1 leg2 leg3 leg4 leg5 leg6 leg7 leg8 leg9 leg10)
qed

lemma comes_to_rest:
  "run 400 (snapshot 2578 180 4 0 True 8) (replicate 20 Map.empty)
   = snapshot (49472225488645146 / 19073486328125) 180 0 0 True 8"
  by (simp add: eval_nat_numeral snapshot_def sim_defs)

lemma at_rest:
  "updateGame Map.empty 400 (snapshot (49472225488645146 / 19073486328125) 180 0 0 True 8) = snapshot (49472225488645146 / 19073486328125) 180 0 0 True 8"
  by (simp add: snapshot_def sim_defs)

text \<open>The first leg ends in the state \<open>standing\<close>.\<close>

lemma standing_reachable: "run 400 (initial 400) (replicate 33 Map.empty) = standing"
proof -
  have "initial 400 = snapshot 50 0 0 0 False 0"
    by (simp add: snapshot_def initial_def newPlayer_def)
  moreover have "standing = snapshot 50 290 0 0 True 0"
    by (simp add: snapshot_def standing_def initial_def newPlayer_def level_coins_def)
  ultimately show ?thesis
    by (simp only: leg1)
qed

text \<open>
  With no key held afterwards, friction stops the player on the last platform after 20
  frames, and the state no longer changes.
\<close>

lemma rest_forever:
  "run 400 (snapshot (49472225488645146 / 19073486328125) 180 0 0 True 8) (replicate n Map.empty)
     = snapshot (49472225488645146 / 19073486328125) 180 0 0 True 8"
  by (induction n) (simp_all add: at_rest)

lemma idle_after_all_coins:
  "\<not> win (run 400 (snapshot 2578 180 4 0 True 8) (replicate n Map.empty))"
proof
  let ?S = "snapshot 2578 180 4 0 True 8"
  let ?R = "snapshot (49472225488645146 / 19073486328125) 180 0 0 True 8"
  assume w: "win (run 400 ?S (replicate n Map.empty))"
  define m where "m = max n 20"
  have "replicate m Map.empty = replicate n Map.empty @ replicate (m - n) (Map.empty :: keys)"
    unfolding m_def by (simp add: replicate_add [symmetric])
  then have "run 400 ?S (replicate m Map.empty)
      = run 400 (run 400 ?S (replicate n Map.empty)) (replicate (m - n) Map.empty)"
    by (simp only: run_append)
  also have "\<dots> = run 400 ?S (replicate n Map.empty)"
    using w by (rule run_won)
  finally have 1: "win (run 400 ?S (replicate m Map.empty))"
    using w by simp
  have "replicate m Map.empty = replicate 20 Map.empty @ replicate (m - 20) (Map.empty :: keys)"
    unfolding m_def by (simp add: replicate_add [symmetric])
  then have "run 400 ?S (replicate m Map.empty)
      = run 400 (run 400 ?S (replicate 20 Map.empty)) (replicate (m - 20) Map.empty)"
    by (simp only: run_append)
  also have "\<dots> = ?R"
    by (simp only: comes_to_rest rest_forever)
  finally have "win ?R" using 1 by simp
  then show False by (simp add: snapshot_def initial_def)
qed

section \<open>Properties\<close>

subsection \<open>Winning\<close>

text \<open>
  C1. In a frame that starts with \<open>win\<close> false, \<open>updateGame\<close> sets \<open>win\<close> exactly when
  the player, after this frame's \<open>update\<close>, has \<open>x + w > world.width - 50\<close>; and from a
  state with \<open>win\<close> true, no sequence of frames makes \<open>win\<close> false again.
\<close>

theorem win_exactly_at_right_edge:
  "(\<not> win g \<longrightarrow>
      (win (updateGame ks H g) \<longleftrightarrow>
         px (update ks H (platforms g) (player g))
           + pw (update ks H (platforms g) (player g)) > world_width - 50)) \<and>
   (win g \<longrightarrow> win (run H g kss))"
  by (simp add: updateGame_win run_won)

theorem win_exactly_at_right_edge_witness:
  "\<not> win near_goal \<and>
   px (update [''ArrowRight'' \<mapsto> True] 400 (platforms near_goal) (player near_goal))
     + pw (update [''ArrowRight'' \<mapsto> True] 400 (platforms near_goal) (player near_goal))
     > world_width - 50 \<and>
   win (updateGame [''ArrowRight'' \<mapsto> True] 400 near_goal) \<and>
   win (run 400 (updateGame [''ArrowRight'' \<mapsto> True] 400 near_goal)
          [[''ArrowLeft'' \<mapsto> True], [''ArrowLeft'' \<mapsto> True]])"
proof -
  let ?k = "[''ArrowRight'' \<mapsto> True]"
  have a: "\<not> win near_goal" by (simp add: near_goal_def initial_def)
  have b: "px (update ?k 400 (platforms near_goal) (player near_goal))
     + pw (update ?k 400 (platforms near_goal) (player near_goal)) > world_width - 50"
    by (simp add: near_goal_def update_def foldl_collide_keeps before_collision_fields
        falls_out_def jump_vy clamp_x_def move_x_def horizontal_eq right_held_def held_def
        jump_held_def initial_def newPlayer_def world_width_def world_gravity_def)
  have c: "win (updateGame ?k 400 near_goal)"
    using win_exactly_at_right_edge [of near_goal ?k 400] a b by simp
  have d: "win (run 400 (updateGame ?k 400 near_goal)
          [[''ArrowLeft'' \<mapsto> True], [''ArrowLeft'' \<mapsto> True]])"
    using win_exactly_at_right_edge [of "updateGame ?k 400 near_goal" _ 400
        "[[''ArrowLeft'' \<mapsto> True], [''ArrowLeft'' \<mapsto> True]]"] c by simp
  show ?thesis using a b c d by simp
qed

subsection \<open>Collecting every coin does not win\<close>

text \<open>
  C2 says that \<open>win\<close> becomes true once all eight coins are collected, and the header
  comment of main.js says the same. The code does not do it: after \<open>all_coins_run\<close> no coin
  is left and the score is 80, the player stands on the last platform at \<open>x = 2578\<close>, and
  \<open>win\<close> is false; it stays false in every later frame as long as no key is held.
\<close>

theorem all_coins_collected_without_win:
  "coins (run 400 (initial 400) all_coins_run) = [] \<and>
   score (run 400 (initial 400) all_coins_run) = 80 \<and>
   \<not> win (run 400 (initial 400) all_coins_run) \<and>
   (\<forall>n. \<not> win (run 400 (initial 400) (all_coins_run @ replicate n Map.empty)))"
proof -
  have c: "coins (run 400 (initial 400) all_coins_run) = []"
    and s: "score (run 400 (initial 400) all_coins_run) = 80"
    and w: "\<not> win (run 400 (initial 400) all_coins_run)"
    unfolding all_coins_run_ends by (simp_all add: snapshot_def initial_def level_coins_def)
  have "\<not> win (run 400 (initial 400) (all_coins_run @ replicate n Map.empty))" for n
    unfolding run_append all_coins_run_ends by (rule idle_after_all_coins)
  with c s w show ?thesis by blast
qed

subsection \<open>The player stays inside the world\<close>

text \<open>
  C3. In every frame that runs (\<open>win\<close> false at its start), from any state and with any
  keys held, the simulation step ends with \<open>0 \<le> x \<le> world.width - w\<close>, and when the
  clamp fires (\<open>x + vx\<close> after the horizontal control is below 0 or above
  \<open>world.width - w\<close>) the frame ends with \<open>vx = 0\<close>; unless the player is respawned in
  the frame, the resulting \<open>x\<close> is 0 at the left edge, \<open>world.width - w\<close> at the right edge
  and \<open>x + vx\<close> in between. The width \<open>w\<close> is the constructor's 40; any width that leaves
  room for the spawn point (\<open>w \<le> world.width - 50\<close>) will do. With the frames that do not
  run, the bounds hold at the end of every frame of every game played from the start.
\<close>

theorem x_stays_in_world:
  "(\<not> win g \<and> pw (player g) \<le> world_width - 50 \<longrightarrow>
      0 \<le> px (player (updateGame ks H g)) \<and>
      px (player (updateGame ks H g)) \<le> world_width - pw (player (updateGame ks H g)) \<and>
      (px (move_x (horizontal ks (player g))) < 0 \<or>
       px (move_x (horizontal ks (player g))) > world_width - pw (player g)
       \<longrightarrow> vx (player (updateGame ks H g)) = 0) \<and>
      (\<not> falls_out ks H (player g) \<longrightarrow>
         px (player (updateGame ks H g)) =
           (if px (move_x (horizontal ks (player g))) < 0 then 0
            else if px (move_x (horizontal ks (player g))) + pw (player g) > world_width
            then world_width - pw (player g)
            else px (move_x (horizontal ks (player g)))))) \<and>
   0 \<le> px (player (updateGame ks H (run H (initial H) kss))) \<and>
   px (player (updateGame ks H (run H (initial H) kss)))
     \<le> world_width - pw (player (updateGame ks H (run H (initial H) kss)))"
proof -
  let ?p = "player g"
  let ?u = "px (move_x (horizontal ks ?p))"
  have step: "0 \<le> px (player (updateGame ks H g)) \<and>
      px (player (updateGame ks H g)) \<le> world_width - pw (player (updateGame ks H g)) \<and>
      (?u < 0 \<or> ?u > world_width - pw ?p \<longrightarrow> vx (player (updateGame ks H g)) = 0) \<and>
      (\<not> falls_out ks H ?p \<longrightarrow>
         px (player (updateGame ks H g)) =
           (if ?u < 0 then 0
            else if ?u + pw ?p > world_width then world_width - pw ?p
            else ?u))"
    if nw: "\<not> win g" and w: "pw ?p \<le> world_width - 50"
  proof -
    have pl: "player (updateGame ks H g) = update ks H (platforms g) ?p"
      using nw by (simp add: updateGame_player)
    have range: "0 \<le> px (update ks H (platforms g) ?p) \<and>
        px (update ks H (platforms g) ?p) \<le> world_width - pw (update ks H (platforms g) ?p)"
      using update_x_range [OF w, of ks H "platforms g"] by (simp add: update_pw)
    have fires: "vx (update ks H (platforms g) ?p) = 0"
      if "?u < 0 \<or> ?u > world_width - pw ?p"
    proof -
      from that have "?u < 0 \<or> ?u + pw ?p > world_width" by auto
      then show ?thesis by (rule update_clamped)
    qed
    have exact: "px (update ks H (platforms g) ?p) =
           (if ?u < 0 then 0
            else if ?u + pw ?p > world_width then world_width - pw ?p
            else ?u)" if "\<not> falls_out ks H ?p"
      using that by (rule update_x_clamp)
    from range fires exact show ?thesis
      unfolding pl by blast
  qed
  have "pw (player (initial H)) = 40" "0 \<le> px (player (initial H))"
    "px (player (initial H)) \<le> world_width - 40"
    using initial_in_world [of H] by simp_all
  from run_in_world [OF this, of H "kss @ [ks]"]
  have r: "0 \<le> px (player (updateGame ks H (run H (initial H) kss))) \<and>
      px (player (updateGame ks H (run H (initial H) kss)))
        \<le> world_width - pw (player (updateGame ks H (run H (initial H) kss)))"
    by (simp add: run_snoc)
  from step r show ?thesis by blast
qed

text \<open>
  The right edge: a player at \<open>x = 2958\<close> with the right arrow held would move to 2962 and is
  put at 2960 with \<open>vx = 0\<close>. The left edge: twelve frames with the left arrow held bring
  the player from the spawn point to \<open>x = 2\<close>, and the next one clamps.
\<close>

lemma twelve_left:
  "run 400 (initial 400) (replicate 12 left_key)
     = (initial 400)\<lparr>player := newPlayer\<lparr>px := 2, py := 39, vx := - 4, vy := 6\<rparr>\<rparr>"
  by (simp add: eval_nat_numeral left_key_def sim_defs)

theorem x_stays_in_world_witness:
  "\<not> win at_right_edge \<and>
   pw (player at_right_edge) \<le> world_width - 50 \<and>
   px (move_x (horizontal right_key (player at_right_edge)))
     > world_width - pw (player at_right_edge) \<and>
   \<not> falls_out right_key 400 (player at_right_edge) \<and>
   px (player (updateGame right_key 400 at_right_edge)) = world_width - pw (player at_right_edge) \<and>
   px (player (updateGame right_key 400 at_right_edge)) = 2960 \<and>
   vx (player (updateGame right_key 400 at_right_edge)) = 0 \<and>
   \<not> win (run 400 (initial 400) (replicate 12 left_key)) \<and>
   pw (player (run 400 (initial 400) (replicate 12 left_key))) \<le> world_width - 50 \<and>
   px (move_x (horizontal left_key (player (run 400 (initial 400) (replicate 12 left_key))))) < 0 \<and>
   \<not> falls_out left_key 400 (player (run 400 (initial 400) (replicate 12 left_key))) \<and>
   px (player (updateGame left_key 400 (run 400 (initial 400) (replicate 12 left_key)))) = 0 \<and>
   vx (player (updateGame left_key 400 (run 400 (initial 400) (replicate 12 left_key)))) = 0"
proof -
  let ?r = at_right_edge
  let ?l = "run 400 (initial 400) (replicate 12 left_key)"
  have r1: "\<not> win ?r" and r2: "pw (player ?r) \<le> world_width - 50"
    and r3: "px (move_x (horizontal right_key (player ?r))) > world_width - pw (player ?r)"
    and r4: "\<not> falls_out right_key 400 (player ?r)"
    and r5: "world_width - pw (player ?r) = 2960"
    by (simp_all add: at_right_edge_def initial_def newPlayer_def world_width_def move_x_def
        horizontal_eq right_key_def right_held_def held_def falls_out_def jump_vy jump_held_def
        world_gravity_def)
  have l1: "\<not> win ?l" and l2: "pw (player ?l) \<le> world_width - 50"
    and l3: "px (move_x (horizontal left_key (player ?l))) < 0"
    and l4: "\<not> falls_out left_key 400 (player ?l)"
    unfolding twelve_left
    by (simp_all add: initial_def newPlayer_def world_width_def move_x_def
        horizontal_eq left_key_def left_held_def right_held_def held_def falls_out_def jump_vy
        jump_held_def world_gravity_def)
  from x_stays_in_world [of ?r right_key 400] r1 r2 r3 r4
  have R: "px (player (updateGame right_key 400 ?r)) = world_width - pw (player ?r) \<and>
      vx (player (updateGame right_key 400 ?r)) = 0"
    by auto
  from x_stays_in_world [of ?l left_key 400] l1 l2 l3 l4
  have L: "px (player (updateGame left_key 400 ?l)) = 0 \<and>
      vx (player (updateGame left_key 400 ?l)) = 0"
    by auto
  from r1 r2 r3 r4 r5 l1 l2 l3 l4 R L show ?thesis by simp
qed

subsection \<open>Platform collisions\<close>

text \<open>
  C4, as the code has it. When the loop reaches a platform, the collision is resolved
  exactly when the player as it is then has \<open>vy \<ge> 0\<close>, overlaps the platform horizontally,
  has its bottom edge \<open>y + h\<close> at most 5 below the platform's top, and has \<open>y + h + vy\<close> at
  the top or past it (\<open>y\<close> grows downwards); on a match the bottom is put on the top, \<open>vy\<close>
  is zeroed and \<open>onGround\<close> set, and the remaining platforms are tested on the player so
  changed. The \<open>y\<close> of that
  test is the one after line 186: without a respawn it is the frame's starting \<open>y\<close> plus
  the frame's \<open>vy\<close> (jump or old value, plus gravity), so the tolerance is tested after \<open>vy\<close>
  has been applied once and the projection applies it a second time.
\<close>

theorem collision_test_after_integration:
  "update ks H (as @ [plat]) p =
     (let r = update ks H as p in
      if vy r \<ge> 0 \<and> px r + pw r > plat_x plat \<and> px r < plat_x plat + plat_w plat \<and>
         py r + ph r \<le> plat_y plat + 5 \<and> py r + ph r + vy r \<ge> plat_y plat
      then r\<lparr>py := plat_y plat - ph r, vy := 0, onGround := True\<rparr>
      else r) \<and>
   update ks H (as @ plat # bs) p = foldl collide (update ks H (as @ [plat]) p) bs \<and>
   (\<not> falls_out ks H p \<longrightarrow>
      vy (update ks H [] p) = vy (jump ks p) + world_gravity \<and>
      py (update ks H [] p) = py p + vy (update ks H [] p))"
  by (simp add: update_def collide_def hits_def Let_def before_collision_fields)

theorem collision_test_after_integration_witness:
  "\<not> falls_out Map.empty 400 falling \<and>
   vy (update Map.empty 400 [] falling) = 33 / 2 \<and>
   py (update Map.empty 400 [] falling) = py falling + 33 / 2 \<and>
   update Map.empty 400 ([] @ [Platform 0 350 3000 50]) falling
     = (update Map.empty 400 [] falling)\<lparr>py := 290, vy := 0, onGround := True\<rparr>"
proof -
  have f: "\<not> falls_out Map.empty 400 falling"
    by (simp add: falls_out_def falling_def newPlayer_def jump_vy jump_held_def held_def
        world_gravity_def)
  have j: "vy (jump Map.empty falling) = 16"
    by (simp add: jump_vy jump_held_def held_def falling_def newPlayer_def)
  from collision_test_after_integration [of Map.empty 400 "[]" "Platform 0 350 3000 50" falling "[]"] f
  have v: "vy (update Map.empty 400 [] falling) = 33 / 2"
    and y: "py (update Map.empty 400 [] falling) = py falling + 33 / 2"
    and u: "update Map.empty 400 ([] @ [Platform 0 350 3000 50]) falling =
     (let r = update Map.empty 400 [] falling in
      if vy r \<ge> 0 \<and> px r + pw r > plat_x (Platform 0 350 3000 50)
         \<and> px r < plat_x (Platform 0 350 3000 50) + plat_w (Platform 0 350 3000 50) \<and>
         py r + ph r \<le> plat_y (Platform 0 350 3000 50) + 5
         \<and> py r + ph r + vy r \<ge> plat_y (Platform 0 350 3000 50)
      then r\<lparr>py := plat_y (Platform 0 350 3000 50) - ph r, vy := 0, onGround := True\<rparr>
      else r)"
    by (simp_all add: j world_gravity_def)
  have x: "px (update Map.empty 400 [] falling) = 50" "pw (update Map.empty 400 [] falling) = 40"
    "ph (update Map.empty 400 [] falling) = 60"
    by (simp_all add: update_nil before_collision_fields f stage_keeps clamp_x_def move_x_def
        horizontal_eq left_held_def right_held_def held_def friction_def falling_def
        newPlayer_def world_width_def)
  have "py falling = 264" by (simp add: falling_def)
  with u v y x have "update Map.empty 400 ([] @ [Platform 0 350 3000 50]) falling
     = (update Map.empty 400 [] falling)\<lparr>py := 290, vy := 0, onGround := True\<rparr>"
    by (simp add: Let_def Platform_def)
  with f v y show ?thesis by simp
qed

text \<open>
  The first landing of a game on a 400 pixel canvas (ground top at 350): in frame 33 the
  bottom edge is at 340.5 after \<open>vy\<close> has been applied, above the ground's top, so the test
  as C4 words it fails; the code's test passes (340.5 + 16.5 reaches 350) and the player is
  put on the ground.
\<close>

theorem collision_test_as_worded_counterexample:
  "\<not> test_as_worded (py falling) (before_collision Map.empty 400 falling) (Platform 0 350 3000 50) \<and>
   py (before_collision Map.empty 400 falling) + ph (before_collision Map.empty 400 falling) = 681 / 2 \<and>
   hits (before_collision Map.empty 400 falling) (Platform 0 350 3000 50) \<and>
   update Map.empty 400 (level_platforms 400) falling
     = newPlayer\<lparr>py := 290, vy := 0, onGround := True\<rparr>"
  by (simp add: test_as_worded_def falling_lands) (simp add: falling_def sim_defs)

subsection \<open>Score\<close>

text \<open>
  C5. Along every sequence of frames from the start: a frame never lowers the score; a
  frame only removes coins from the list (none comes back) and adds 10 for each coin it
  removes; the score is 10 times the number of the level's coins that are gone from the
  list, so that each coin has counted once and no more; and score plus 10 times the number
  of coins left is 80, so that the score is exactly 80 when all 8 coins are collected.
\<close>

theorem score_counts_each_coin_once:
  "score (run H (initial H) kss) \<le> score (updateGame ks H (run H (initial H) kss)) \<and>
   (\<exists>P. coins (updateGame ks H (run H (initial H) kss)) = filter P (coins (run H (initial H) kss))) \<and>
   score (updateGame ks H (run H (initial H) kss)) - score (run H (initial H) kss)
     = 10 * (int (length (coins (run H (initial H) kss)))
             - int (length (coins (updateGame ks H (run H (initial H) kss))))) \<and>
   score (run H (initial H) kss)
     = 10 * int (card (set (level_coins H) - set (coins (run H (initial H) kss)))) \<and>
   score (run H (initial H) kss) + 10 * int (length (coins (run H (initial H) kss))) = 80 \<and>
   (coins (run H (initial H) kss) = [] \<longrightarrow> score (run H (initial H) kss) = 80)"
proof -
  let ?g = "run H (initial H) kss"
  have inv: "score ?g + 10 * int (length (coins ?g)) = 80"
    using run_score_coins [of H "initial H" kss] by (simp add: initial_def level_coins_def)
  have mono: "score ?g \<le> score (updateGame ks H ?g)"
    by (simp add: updateGame_score)
  have filt: "\<exists>P. coins (updateGame ks H ?g) = filter P (coins ?g)"
    by (rule updateGame_coins_filter)
  have diff: "score (updateGame ks H ?g) - score ?g
      = 10 * (int (length (coins ?g)) - int (length (coins (updateGame ks H ?g))))"
    using updateGame_score_coins [of ks H ?g] by simp
  have "coins (initial H) = level_coins H"
    by (simp add: initial_def)
  with run_coins_filter [of H "initial H" kss]
  obtain P where P: "coins ?g = filter P (level_coins H)"
    by auto
  have "int (card (set (level_coins H) - set (coins ?g)))
      = int (length (level_coins H)) - int (length (coins ?g))"
    unfolding P by (rule card_removed [OF distinct_level_coins])
  also have "\<dots> = 8 - int (length (coins ?g))"
    by (simp add: level_coins_def)
  finally have cnt: "score ?g = 10 * int (card (set (level_coins H) - set (coins ?g)))"
    using inv by simp
  have full: "coins ?g = [] \<longrightarrow> score ?g = 80"
  proof
    assume "coins ?g = []"
    with inv show "score ?g = 80" by simp
  qed
  from mono filt diff cnt inv full show ?thesis
    by (intro conjI)
qed

text \<open>The run \<open>all_coins_run\<close> collects all eight coins, and its score is 80.\<close>

theorem score_counts_each_coin_once_witness:
  "coins (run 400 (initial 400) all_coins_run) = [] \<and>
   score (run 400 (initial 400) all_coins_run) = 80"
proof -
  have c: "coins (run 400 (initial 400) all_coins_run) = []"
    unfolding all_coins_run_ends by (simp add: snapshot_def level_coins_def)
  from score_counts_each_coin_once [of 400 all_coins_run] c show ?thesis
    by blast
qed

subsection \<open>A won game is frozen\<close>

text \<open>
  C6. In a frame that starts with \<open>win\<close> true, \<open>updateGame\<close> changes nothing of the game
  state: the player (position, velocities, \<open>onGround\<close>), the coins, the score and \<open>win\<close>
  are the same before and after.
\<close>

theorem won_game_is_frozen: "win g \<Longrightarrow> updateGame ks H g = g"
  by (simp add: updateGame_def)

theorem won_game_is_frozen_witness:
  "win ((initial 400)\<lparr>win := True\<rparr>) \<and>
   updateGame [''ArrowRight'' \<mapsto> True] 400 ((initial 400)\<lparr>win := True\<rparr>)
     = (initial 400)\<lparr>win := True\<rparr>"
  using won_game_is_frozen [of "(initial 400)\<lparr>win := True\<rparr>" "[''ArrowRight'' \<mapsto> True]" 400]
  by simp

subsection \<open>Respawn\<close>

text \<open>
  C7, as the code has it. The fall limit is tested after the frame has moved the player.
  In a frame that starts with \<open>win\<close> false and in which \<open>y\<close> plus the frame's \<open>vy\<close> (jump or
  old value, plus gravity) exceeds \<open>canvas.height + 200\<close>, the step ends with \<open>x = 50\<close>,
  \<open>y = 0\<close>, \<open>vx = 0\<close> and \<open>vy = 0\<close>, in the game's level with the player's size of 40 by 60
  and a canvas height outside 105..110 (where the ground, at \<open>canvas.height - 50\<close>, would
  catch the respawned player in the same frame).
\<close>

theorem respawn_recovery:
  assumes "\<not> win g" and "falls_out ks H (player g)"
    and "platforms g = level_platforms H" and "pw (player g) = 40" and "ph (player g) = 60"
    and "H < 105 \<or> 110 < H"
  shows "px (player (updateGame ks H g)) = 50 \<and> py (player (updateGame ks H g)) = 0 \<and>
         vx (player (updateGame ks H g)) = 0 \<and> vy (player (updateGame ks H g)) = 0"
proof -
  let ?q = "before_collision ks H (player g)"
  have q: "px ?q = 50" "pw ?q = 40" "py ?q = 0" "ph ?q = 60" "vy ?q = 0" "vx ?q = 0"
    using assms(2,4,5) by (simp_all add: before_collision_fields)
  have "update ks H (platforms g) (player g) = ?q"
    unfolding update_def assms(3) by (rule spawn_misses_level [OF q(1-5) assms(6)])
  then show ?thesis
    using assms(1) q by (simp add: updateGame_player)
qed

theorem respawn_recovery_witness:
  "\<not> win dropped \<and> py (player dropped) > 400 + 200 \<and> falls_out Map.empty 400 (player dropped) \<and>
   platforms dropped = level_platforms 400 \<and> pw (player dropped) = 40 \<and>
   ph (player dropped) = 60 \<and>
   px (player (updateGame Map.empty 400 dropped)) = 50 \<and>
   py (player (updateGame Map.empty 400 dropped)) = 0 \<and>
   vx (player (updateGame Map.empty 400 dropped)) = 0 \<and>
   vy (player (updateGame Map.empty 400 dropped)) = 0"
proof -
  have h: "\<not> win dropped" "falls_out Map.empty 400 (player dropped)"
    "platforms dropped = level_platforms 400" "pw (player dropped) = 40"
    "ph (player dropped) = 60" "(400::real) < 105 \<or> 110 < (400::real)"
    by (simp_all add: dropped_def initial_def newPlayer_def falls_out_def jump_vy jump_held_def
        held_def world_gravity_def)
  have "py (player dropped) > 400 + 200"
    by (simp add: dropped_def newPlayer_def)
  with respawn_recovery [OF h] h show ?thesis by simp
qed

text \<open>
  A player at \<open>y = 601 > 600\<close> moving up at 12 per frame: the frame moves it to 589.5,
  inside the limit, and nothing is reset.
\<close>

theorem respawn_needs_descent_counterexample:
  "\<not> win below_world \<and> py (player below_world) > 400 + 200 \<and>
   px (player (updateGame Map.empty 400 below_world)) = 300 \<and>
   py (player (updateGame Map.empty 400 below_world)) = 1179 / 2 \<and>
   vy (player (updateGame Map.empty 400 below_world)) = - 23 / 2"
  by (simp add: below_world_def sim_defs)

subsection \<open>Jumping\<close>

text \<open>
  C8, as the code has it. In a frame that starts with \<open>win\<close> false, \<open>onGround\<close> true and a
  jump key held (the player not falling out of the world in it), the frame ends with
  \<open>vy = - jumpStrength + gravity\<close> and \<open>onGround\<close> false: gravity is added after the jump
  has set \<open>vy\<close>, in the same frame, so \<open>vy\<close> is -11.5 and not -12.
\<close>

theorem jump_frame:
  assumes "\<not> win g" and "onGround (player g)" and "jump_held ks"
    and "world_gravity < jumpStrength (player g)"
    and "\<not> falls_out ks H (player g)"
  shows "vy (player (updateGame ks H g)) = - jumpStrength (player g) + world_gravity \<and>
         \<not> onGround (player (updateGame ks H g))"
proof -
  let ?q = "before_collision ks H (player g)"
  have v: "vy ?q = - jumpStrength (player g) + world_gravity"
    using assms by (simp add: before_collision_fields jump_vy)
  then have "vy ?q < 0" using assms(4) by simp
  then have "update ks H (platforms g) (player g) = ?q"
    by (simp add: update_def foldl_collide_rising)
  then show ?thesis
    using assms(1) v by (simp add: updateGame_player before_collision_fields)
qed

theorem jump_frame_witness:
  "\<not> win standing \<and> onGround (player standing) \<and> jump_held [''Space'' \<mapsto> True] \<and>
   world_gravity < jumpStrength (player standing) \<and>
   \<not> falls_out [''Space'' \<mapsto> True] 400 (player standing) \<and>
   vy (player (updateGame [''Space'' \<mapsto> True] 400 standing)) = - 23 / 2 \<and>
   \<not> onGround (player (updateGame [''Space'' \<mapsto> True] 400 standing))"
proof -
  have h: "\<not> win standing" "onGround (player standing)" "jump_held [''Space'' \<mapsto> True]"
    "world_gravity < jumpStrength (player standing)"
    "\<not> falls_out [''Space'' \<mapsto> True] 400 (player standing)"
    by (simp_all add: standing_def initial_def newPlayer_def jump_held_def held_def
        world_gravity_def falls_out_def jump_vy)
  have "jumpStrength (player standing) = 12"
    by (simp add: standing_def newPlayer_def)
  then show ?thesis
    using jump_frame [OF h] h by (simp add: world_gravity_def)
qed

text \<open>
  The grounded player with Space held: the frame ends with \<open>vy = -11.5\<close>, which is not
  \<open>- jumpStrength = -12\<close>.
\<close>

theorem jump_frame_vy_counterexample:
  "\<not> win standing \<and> onGround (player standing) \<and> jump_held [''Space'' \<mapsto> True] \<and>
   jumpStrength (player standing) = 12 \<and>
   vy (player (updateGame [''Space'' \<mapsto> True] 400 standing)) = - 23 / 2 \<and>
   vy (player (updateGame [''Space'' \<mapsto> True] 400 standing))
     \<noteq> - jumpStrength (player standing)"
  by (simp add: standing_def sim_defs)

subsection \<open>Horizontal control\<close>

text \<open>
  C9, as the code has it. Friction (\<open>vx\<close> times 0.8, and 0 when the product is below 0.05
  in absolute value) is applied only when neither left nor right is held. When right is
  held, with or without left, \<open>vx\<close> is \<open>speed\<close>: right is tested last and overrides left,
  and \<open>moving\<close> is then true, so there is no friction in that frame. With left alone,
  \<open>vx\<close> is \<open>- speed\<close>. Nothing but \<open>vx\<close> is written.
\<close>

theorem horizontal_control:
  "(\<not> left_held ks \<and> \<not> right_held ks \<longrightarrow> horizontal ks p = p\<lparr>vx := friction (vx p)\<rparr>) \<and>
   (right_held ks \<longrightarrow> horizontal ks p = p\<lparr>vx := speed p\<rparr>) \<and>
   (left_held ks \<and> \<not> right_held ks \<longrightarrow> horizontal ks p = p\<lparr>vx := - speed p\<rparr>) \<and>
   friction v = (if \<bar>v * (8 / 10)\<bar> < 5 / 100 then 0 else v * (8 / 10))"
  by (simp add: horizontal_eq friction_def)

text \<open>
  With both directions held and \<open>vx = 1\<close>, the step yields \<open>vx = 4\<close> (the speed), where
  friction would have given 0.8: no friction is applied when both are held.
\<close>

theorem friction_on_both_held_counterexample:
  "left_held both_keys \<and> right_held both_keys \<and>
   vx (horizontal both_keys (newPlayer\<lparr>vx := 1\<rparr>)) = 4 \<and>
   friction (vx (newPlayer\<lparr>vx := 1\<rparr>)) = 8 / 10 \<and>
   vx (horizontal both_keys (newPlayer\<lparr>vx := 1\<rparr>)) \<noteq> friction (vx (newPlayer\<lparr>vx := 1\<rparr>))"
  by (simp add: both_keys_def left_held_def right_held_def held_def horizontal_eq newPlayer_def
      friction_def)

theorem horizontal_control_witness:
  "\<not> left_held Map.empty \<and> \<not> right_held Map.empty \<and>
   horizontal Map.empty (newPlayer\<lparr>vx := 4\<rparr>) = newPlayer\<lparr>vx := 32 / 10\<rparr> \<and>
   right_held both_keys \<and>
   horizontal both_keys newPlayer = newPlayer\<lparr>vx := 4\<rparr> \<and>
   left_held [''KeyA'' \<mapsto> True] \<and> \<not> right_held [''KeyA'' \<mapsto> True] \<and>
   horizontal [''KeyA'' \<mapsto> True] newPlayer = newPlayer\<lparr>vx := - 4\<rparr>"
proof -
  have n: "\<not> left_held Map.empty \<and> \<not> right_held Map.empty"
    by (simp add: left_held_def right_held_def held_def)
  have r: "right_held both_keys"
    by (simp add: both_keys_def right_held_def held_def)
  have l: "left_held [''KeyA'' \<mapsto> True] \<and> \<not> right_held [''KeyA'' \<mapsto> True]"
    by (simp add: left_held_def right_held_def held_def)
  have 1: "horizontal Map.empty (newPlayer\<lparr>vx := 4\<rparr>) = newPlayer\<lparr>vx := 32 / 10\<rparr>"
    using horizontal_control [of Map.empty "newPlayer\<lparr>vx := 4\<rparr>" 4] n
    by (simp add: newPlayer_def)
  have 2: "horizontal both_keys newPlayer = newPlayer\<lparr>vx := 4\<rparr>"
    using horizontal_control [of both_keys newPlayer] r by (simp add: newPlayer_def)
  have 3: "horizontal [''KeyA'' \<mapsto> True] newPlayer = newPlayer\<lparr>vx := - 4\<rparr>"
    using horizontal_control [of "[''KeyA'' \<mapsto> True]" newPlayer] l by (simp add: newPlayer_def)
  show ?thesis using n r l 1 2 3 by simp
qed

subsection \<open>Grounded means resting on a platform\<close>

text \<open>
  C10. At the end of \<open>update\<close>, if \<open>onGround\<close> is true then \<open>vy = 0\<close> and the player's
  bottom \<open>y + h\<close> is the top of one of the platforms; and \<open>onGround\<close> is true exactly when
  some platform passed the collision test on the player as the loop had left it when it
  reached that platform, so never in a frame in which no platform matched.
\<close>

theorem grounded_means_resting:
  "(onGround (update ks H plats p) \<longrightarrow>
      vy (update ks H plats p) = 0 \<and>
      (\<exists>pl\<in>set plats. py (update ks H plats p) + ph (update ks H plats p) = plat_y pl)) \<and>
   (onGround (update ks H plats p) \<longleftrightarrow>
      (\<exists>as pl bs. plats = as @ pl # bs \<and> hits (update ks H as p) pl))"
proof -
  have n: "\<not> onGround (before_collision ks H p)"
    by (simp add: before_collision_fields)
  show ?thesis
    unfolding update_def
    using foldl_collide_resting [OF n, of plats] foldl_collide_onGround [OF n, of plats]
    by blast
qed

theorem grounded_means_resting_witness:
  "onGround (update Map.empty 400 (level_platforms 400) falling) \<and>
   vy (update Map.empty 400 (level_platforms 400) falling) = 0 \<and>
   (\<exists>pl\<in>set (level_platforms 400).
      py (update Map.empty 400 (level_platforms 400) falling)
        + ph (update Map.empty 400 (level_platforms 400) falling) = plat_y pl)"
proof -
  have g: "onGround (update Map.empty 400 (level_platforms 400) falling)"
    by (simp add: falling_lands)
  show ?thesis
    using grounded_means_resting [of Map.empty 400 "level_platforms 400" falling] g by blast
qed

end
